theory Spec2Isabelle
  imports Main "HOL-Library.Word"
begin

section \<open>Data model of \<^verbatim>\<open>FunctionMapper.h\<close>\<close>

text \<open>
  The class stores a jump vector: an array of \<^verbatim>\<open>FunctionMap\<close> structures
  \<^verbatim>\<open>{ unsigned int functionCode; bool (*handler)(unsigned char, unsigned char); }\<close>
  and the number \<^verbatim>\<open>arraySize\<close> of real slots.

  \<^item> \<^verbatim>\<open>unsigned int\<close> is taken to be 32 bits wide and \<^verbatim>\<open>unsigned char\<close> is 8 bits
    wide: both are words, so that \<^verbatim>\<open>arraySize + 1\<close> wraps and passing a function code
    to a handler truncates it, as in the source. \<^verbatim>\<open>int\<close> is 32 bits wide as well.
  \<^item> A handler is a function pointer. The null pointer is \<open>None\<close>; a callable pointer
    is \<open>Some h\<close>, where \<open>h\<close> takes the two bytes and the state \<open>'s\<close> of the firmware
    around the table and returns its boolean result with the new state. Whatever a
    handler does is a change of that state, so "which handlers ran" can be read from it.
  \<^item> An array is a list. A read or write at an index outside the list is undefined
    behaviour in C++ and is the value \<open>Inl OutOfBounds\<close> here.
\<close>

type_synonym uint = "32 word"
type_synonym uchar = "8 word"

type_synonym 's handler_fn = "uchar \<Rightarrow> uchar \<Rightarrow> 's \<Rightarrow> bool \<times> 's"

record 's FunctionMap =
  functionCode :: uint
  handler :: "'s handler_fn option"

record 's FunctionMapper =
  arraySize :: uint
  functionMapArray :: "'s FunctionMap list"

datatype fault = OutOfBounds

text \<open>The test \<^verbatim>\<open>p == 0\<close> on a function pointer.\<close>

definition is_null :: "'a option \<Rightarrow> bool" where
  "is_null p = (case p of None \<Rightarrow> True | Some _ \<Rightarrow> False)"

section \<open>The constructor\<close>

text \<open>
  \<^verbatim>\<open>while (functionMapArray[fmaSize].handler != 0) fmaSize++;\<close>

  The loop measures the caller's array up to its first null handler. The counter is a
  natural number: as an \<^verbatim>\<open>unsigned int\<close> it could only wrap on an array of \<open>2 ^ 32\<close>
  entries with no null handler among them. An array with no null handler at all is read
  past its end.
\<close>

function fmaSize_loop :: "'s FunctionMap list \<Rightarrow> nat \<Rightarrow> fault + nat" where
  "fmaSize_loop src fmaSize =
     (if fmaSize < length src
      then (if \<not> is_null (handler (src ! fmaSize))
            then fmaSize_loop src (Suc fmaSize)
            else Inr fmaSize)
      else Inl OutOfBounds)"
  by pat_completeness auto
termination
  by (relation "measure (\<lambda>(src, fmaSize). length src - fmaSize)") auto

text \<open>
  One round of the initialising loop:
  \<^verbatim>\<open>functionMapArray[i].functionCode = (i < fmaSize)?functionMapArray[i].functionCode:0;\<close>
  \<^verbatim>\<open>functionMapArray[i].handler = (i < fmaSize)?functionMapArray[i].handler:0;\<close>
  The reads of the caller's array are at indices below \<open>fmaSize\<close>, which the measuring
  loop has already read.
\<close>

definition init_slot :: "'s FunctionMap list \<Rightarrow> uint \<Rightarrow> nat \<Rightarrow> 's FunctionMap" where
  "init_slot src fmaSize i =
     \<lparr> functionCode = (if i < unat fmaSize then functionCode (src ! i) else 0),
       handler = (if i < unat fmaSize then handler (src ! i) else None) \<rparr>"

text \<open>
  \<^verbatim>\<open>this->arraySize = size; this->functionMapArray = new FunctionMap[this->arraySize + 1];\<close>
  followed by the loop \<^verbatim>\<open>for (unsigned int i = 0; i < (this->arraySize + 1); i++)\<close>.
  The sum \<^verbatim>\<open>arraySize + 1\<close> is an \<^verbatim>\<open>unsigned int\<close>: it is \<open>0\<close> when
  \<open>arraySize\<close> is the largest value.
\<close>

definition allocate :: "'s FunctionMap list \<Rightarrow> uint \<Rightarrow> uint \<Rightarrow> 's FunctionMapper" where
  "allocate src fmaSize size' =
     \<lparr> arraySize = size',
       functionMapArray = map (init_slot src fmaSize) [0 ..< unat (size' + 1)] \<rparr>"

text \<open>
  \<^verbatim>\<open>FunctionMapper(FunctionMap *functionMapArray = 0, unsigned int size = 0)\<close>:
  \<open>fma\<close> is the parameter \<^verbatim>\<open>functionMapArray\<close> (\<open>None\<close> for the null pointer) and
  \<open>size'\<close> the parameter \<^verbatim>\<open>size\<close>.
\<close>

definition FunctionMapper ::
  "'s FunctionMap list option \<Rightarrow> uint \<Rightarrow> fault + 's FunctionMapper" where
  "FunctionMapper fma size' =
     (case fma of
        Some src \<Rightarrow>
          (case fmaSize_loop src 0 of
             Inl e \<Rightarrow> Inl e
           | Inr n \<Rightarrow>
               (let fmaSize = (of_nat n :: uint)
                in Inr (allocate src fmaSize (if size' < fmaSize then fmaSize else size'))))
      | None \<Rightarrow> Inr (allocate [] 0 (if size' = 0 then 10 else size')))"

section \<open>addHandler\<close>

text \<open>
  \<^verbatim>\<open>int slot = -1; for (unsigned int i = 0; i < this->arraySize; i++)
    if (this->functionMapArray[i].handler == 0) slot = i;\<close>

  The counter \<open>i\<close> stays below \<^verbatim>\<open>arraySize\<close> and does not wrap. The assignment
  \<^verbatim>\<open>slot = i\<close> converts an \<^verbatim>\<open>unsigned int\<close> to a 32-bit \<^verbatim>\<open>int\<close>: an index of
  \<open>2 ^ 31\<close> or more becomes negative, and a write at a negative index is outside the
  array.
\<close>

definition to_int :: "nat \<Rightarrow> int" where
  "to_int i = sint (of_nat i :: uint)"

function addHandler_loop :: "'s FunctionMap list \<Rightarrow> nat \<Rightarrow> nat \<Rightarrow> int \<Rightarrow> fault + int" where
  "addHandler_loop arr n i slot =
     (if i < n
      then (if i < length arr
            then addHandler_loop arr n (Suc i)
                   (if is_null (handler (arr ! i)) then to_int i else slot)
            else Inl OutOfBounds)
      else Inr slot)"
  by pat_completeness auto
termination
  by (relation "measure (\<lambda>(arr, n, i, slot). n - i)") auto

text \<open>
  \<^verbatim>\<open>if (slot != -1) { functionMapArray[slot].functionCode = functionCode;
    functionMapArray[slot].handler = handler; } return(slot != -1);\<close>

  The \<^verbatim>\<open>unsigned char\<close> code is widened to the \<^verbatim>\<open>unsigned int\<close> field.
\<close>

definition addHandler ::
  "'s FunctionMapper \<Rightarrow> uchar \<Rightarrow> 's handler_fn option \<Rightarrow> fault + (bool \<times> 's FunctionMapper)" where
  "addHandler t code h =
     (case addHandler_loop (functionMapArray t) (unat (arraySize t)) 0 (- 1) of
        Inl e \<Rightarrow> Inl e
      | Inr slot \<Rightarrow>
          if slot \<noteq> - 1
          then (if 0 \<le> slot \<and> nat slot < length (functionMapArray t)
                then Inr (True,
                       t\<lparr> functionMapArray :=
                            (functionMapArray t)
                              [nat slot := \<lparr> functionCode = ucast code, handler = h \<rparr>] \<rparr>)
                else Inl OutOfBounds)
          else Inr (False, t))"

section \<open>validateAddress and processValue\<close>

text \<open>
  \<^verbatim>\<open>for (unsigned int i = 0; this->functionMapArray[i].handler != 0; i++)
    if (this->functionMapArray[i].functionCode == functionCode) { retval = true; break; }\<close>

  The loop has no bound of its own: it ends at a null handler, at a match, or reads past
  the array. The counter is a natural number: the constructor allocates fewer than
  \<open>2 ^ 32\<close> slots, so the read past the array comes before the counter could wrap.
\<close>

function validateAddress_loop :: "'s FunctionMap list \<Rightarrow> uint \<Rightarrow> nat \<Rightarrow> fault + bool" where
  "validateAddress_loop arr code i =
     (if i < length arr
      then (if \<not> is_null (handler (arr ! i))
            then (if functionCode (arr ! i) = code
                  then Inr True
                  else validateAddress_loop arr code (Suc i))
            else Inr False)
      else Inl OutOfBounds)"
  by pat_completeness auto
termination
  by (relation "measure (\<lambda>(arr, code, i). length arr - i)") auto

definition validateAddress :: "'s FunctionMapper \<Rightarrow> uint \<Rightarrow> fault + bool" where
  "validateAddress t code = validateAddress_loop (functionMapArray t) code 0"

text \<open>
  \<^verbatim>\<open>retval = this->functionMapArray[i].handler(functionCode, value); break;\<close>

  The handler's first parameter is an \<^verbatim>\<open>unsigned char\<close>: the call converts the
  \<^verbatim>\<open>unsigned int\<close> code to it.
\<close>

function processValue_loop ::
  "'s FunctionMap list \<Rightarrow> uint \<Rightarrow> uchar \<Rightarrow> nat \<Rightarrow> 's \<Rightarrow> fault + (bool \<times> 's)" where
  "processValue_loop arr code val i s =
     (if i < length arr
      then (case handler (arr ! i) of
              None \<Rightarrow> Inr (False, s)
            | Some h \<Rightarrow>
                if functionCode (arr ! i) = code
                then Inr (h (ucast code) val s)
                else processValue_loop arr code val (Suc i) s)
      else Inl OutOfBounds)"
  by pat_completeness auto
termination
  by (relation "measure (\<lambda>(arr, code, val, i, s). length arr - i)") auto

definition processValue ::
  "'s FunctionMapper \<Rightarrow> uint \<Rightarrow> uchar \<Rightarrow> 's \<Rightarrow> fault + (bool \<times> 's)" where
  "processValue t code val s = processValue_loop (functionMapArray t) code val 0 s"

section \<open>Vocabulary of the properties\<close>

text \<open>
  \<open>live_entries src k\<close>: the array \<open>src\<close> holds exactly \<open>k\<close> live entries, that is \<open>k\<close>
  entries with callable handlers followed by an entry with the null handler.
\<close>

definition live_entries :: "'s FunctionMap list \<Rightarrow> nat \<Rightarrow> bool" where
  "live_entries src k \<longleftrightarrow>
     k < length src \<and> is_null (handler (src ! k)) \<and>
     list_all (\<lambda>e. \<not> is_null (handler e)) (take k src)"

text \<open>
  \<open>no_match_before arr code j\<close>: the slots below index \<open>j\<close> all hold callable handlers
  and none of them holds the code \<open>code\<close>.
\<close>

definition no_match_before :: "'s FunctionMap list \<Rightarrow> uint \<Rightarrow> nat \<Rightarrow> bool" where
  "no_match_before arr code j \<longleftrightarrow>
     list_all (\<lambda>e. \<not> is_null (handler e) \<and> functionCode e \<noteq> code) (take j arr)"

text \<open>
  \<open>occupied arr n\<close>: the array has at least \<open>n\<close> slots and the first \<open>n\<close> all hold
  callable handlers.
\<close>

definition occupied :: "'s FunctionMap list \<Rightarrow> nat \<Rightarrow> bool" where
  "occupied arr n \<longleftrightarrow>
     n \<le> length arr \<and> list_all (\<lambda>e. \<not> is_null (handler e)) (take n arr)"

text \<open>
  A caller that registers handlers one after the other and goes on only while
  \<^verbatim>\<open>addHandler\<close> returns \<^verbatim>\<open>true\<close>: the result is the table after the last call, or
  \<open>None\<close> when a call returned \<^verbatim>\<open>false\<close> or left the array.
\<close>

fun addHandlers ::
  "'s FunctionMapper \<Rightarrow> (uchar \<times> 's handler_fn) list \<Rightarrow> 's FunctionMapper option" where
  "addHandlers t [] = Some t"
| "addHandlers t ((code, h) # rest) =
     (case addHandler t code (Some h) of
        Inr (True, t') \<Rightarrow> addHandlers t' rest
      | _ \<Rightarrow> None)"

text \<open>
  A handler for the examples: it returns \<open>b\<close> and appends the two bytes it was called
  with to the state, which is the list of all handler calls so far.
\<close>

definition logging :: "bool \<Rightarrow> (uchar \<times> uchar) list handler_fn" where
  "logging b c v s = (b, s @ [(c, v)])"

text \<open>
  The table of the examples: the codes \<open>1\<close> and \<open>2\<close> in slots \<open>0\<close> and \<open>1\<close>, as the
  constructor builds it from the three-entry array with no capacity argument.
\<close>

definition example_map :: "(uchar \<times> uchar) list FunctionMap list" where
  "example_map =
     [\<lparr> functionCode = 1, handler = Some (logging True) \<rparr>,
      \<lparr> functionCode = 2, handler = Some (logging False) \<rparr>,
      \<lparr> functionCode = 0, handler = None \<rparr>]"

definition example_table :: "(uchar \<times> uchar) list FunctionMapper" where
  "example_table = \<lparr> arraySize = 2, functionMapArray = example_map \<rparr>"

text \<open>A table with the code \<open>1\<close> in two live slots.\<close>

definition duplicate_table :: "(uchar \<times> uchar) list FunctionMapper" where
  "duplicate_table =
     \<lparr> arraySize = 2,
       functionMapArray =
         [\<lparr> functionCode = 1, handler = Some (logging True) \<rparr>,
          \<lparr> functionCode = 1, handler = Some (logging False) \<rparr>,
          \<lparr> functionCode = 0, handler = None \<rparr>] \<rparr>"

text \<open>A table with a live entry whose code does not fit a byte: \<open>300 = 256 + 44\<close>.\<close>

definition wide_code_table :: "(uchar \<times> uchar) list FunctionMapper" where
  "wide_code_table =
     \<lparr> arraySize = 1,
       functionMapArray =
         [\<lparr> functionCode = 300, handler = Some (logging True) \<rparr>,
          \<lparr> functionCode = 0, handler = None \<rparr>] \<rparr>"

text \<open>
  The table the constructor builds from the example array with the capacity \<open>5\<close>: two live
  entries and the slots \<open>2\<close> to \<open>4\<close> empty; slot \<open>5\<close> is the terminator.
\<close>

definition five_table :: "(uchar \<times> uchar) list FunctionMapper" where
  "five_table =
     \<lparr> arraySize = 5,
       functionMapArray =
         [\<lparr> functionCode = 1, handler = Some (logging True) \<rparr>,
          \<lparr> functionCode = 2, handler = Some (logging False) \<rparr>,
          \<lparr> functionCode = 0, handler = None \<rparr>,
          \<lparr> functionCode = 0, handler = None \<rparr>,
          \<lparr> functionCode = 0, handler = None \<rparr>,
          \<lparr> functionCode = 0, handler = None \<rparr>] \<rparr>"

text \<open>The table of capacity \<open>5\<close> after \<^verbatim>\<open>addHandler(9, h)\<close>: the entry is in slot \<open>4\<close>.\<close>

definition five_table_added :: "(uchar \<times> uchar) list FunctionMapper" where
  "five_table_added =
     five_table\<lparr> functionMapArray :=
       (functionMapArray five_table)
         [4 := \<lparr> functionCode = 9, handler = Some (logging True) \<rparr>] \<rparr>"

text \<open>
  The empty table of capacity \<open>2\<close>, and the same table after \<^verbatim>\<open>addHandler(1, h)\<close> and
  \<^verbatim>\<open>addHandler(2, h')\<close>: the first call fills slot \<open>1\<close>, the second slot \<open>0\<close>.
\<close>

definition blank_table :: "(uchar \<times> uchar) list FunctionMapper" where
  "blank_table =
     \<lparr> arraySize = 2,
       functionMapArray =
         [\<lparr> functionCode = 0, handler = None \<rparr>,
          \<lparr> functionCode = 0, handler = None \<rparr>,
          \<lparr> functionCode = 0, handler = None \<rparr>] \<rparr>"

definition filled_table :: "(uchar \<times> uchar) list FunctionMapper" where
  "filled_table =
     \<lparr> arraySize = 2,
       functionMapArray =
         [\<lparr> functionCode = 2, handler = Some (logging False) \<rparr>,
          \<lparr> functionCode = 1, handler = Some (logging True) \<rparr>,
          \<lparr> functionCode = 0, handler = None \<rparr>] \<rparr>"

text \<open>
  \<open>terminated t\<close>: the array has \<^verbatim>\<open>arraySize + 1\<close> slots and the slot at index
  \<^verbatim>\<open>arraySize\<close> holds the code \<open>0\<close> and the null handler. \<open>empties t\<close> is the number of
  real slots with the null handler.
\<close>

definition terminated :: "'s FunctionMapper \<Rightarrow> bool" where
  "terminated t \<longleftrightarrow>
     length (functionMapArray t) = Suc (unat (arraySize t)) \<and>
     functionCode (functionMapArray t ! unat (arraySize t)) = 0 \<and>
     is_null (handler (functionMapArray t ! unat (arraySize t)))"

definition empties :: "'s FunctionMapper \<Rightarrow> nat" where
  "empties t =
     length (filter (\<lambda>e. is_null (handler e)) (take (unat (arraySize t)) (functionMapArray t)))"

section \<open>The loops\<close>

declare fmaSize_loop.simps [simp del] addHandler_loop.simps [simp del]
  validateAddress_loop.simps [simp del] processValue_loop.simps [simp del]

lemma is_null_iff: "is_null p \<longleftrightarrow> p = None"
  by (cases p) (simp_all add: is_null_def)

lemma list_all_take_iff:
  "list_all P (take n xs) \<longleftrightarrow> (\<forall>i. i < n \<and> i < length xs \<longrightarrow> P (xs ! i))"
  by (auto simp: list_all_length)

text \<open>A scan that meets neither a null handler nor the code below index \<open>j\<close> reaches \<open>j\<close>.\<close>

lemma validateAddress_loop_skip:
  assumes "j < length arr" "i \<le> j"
    and "\<And>k. i \<le> k \<Longrightarrow> k < j \<Longrightarrow> handler (arr ! k) \<noteq> None \<and> functionCode (arr ! k) \<noteq> code"
  shows "validateAddress_loop arr code i = validateAddress_loop arr code j"
  using assms
proof (induction "j - i" arbitrary: i)
  case 0
  then show ?case by simp
next
  case (Suc d)
  then have lt: "i < j" by simp
  have here: "handler (arr ! i) \<noteq> None \<and> functionCode (arr ! i) \<noteq> code"
    using Suc.prems(3) [of i] lt by simp
  have "validateAddress_loop arr code i = validateAddress_loop arr code (Suc i)"
    using here lt Suc.prems(1)
    by (subst validateAddress_loop.simps) (simp add: is_null_iff)
  also have "\<dots> = validateAddress_loop arr code j"
    using Suc.hyps(2) lt Suc.prems by (intro Suc.hyps(1)) auto
  finally show ?case .
qed

lemma processValue_loop_skip:
  assumes "j < length arr" "i \<le> j"
    and "\<And>k. i \<le> k \<Longrightarrow> k < j \<Longrightarrow> handler (arr ! k) \<noteq> None \<and> functionCode (arr ! k) \<noteq> code"
  shows "processValue_loop arr code v i s = processValue_loop arr code v j s"
  using assms
proof (induction "j - i" arbitrary: i)
  case 0
  then show ?case by simp
next
  case (Suc d)
  then have lt: "i < j" by simp
  have here: "handler (arr ! i) \<noteq> None \<and> functionCode (arr ! i) \<noteq> code"
    using Suc.prems(3) [of i] lt by simp
  have "processValue_loop arr code v i s = processValue_loop arr code v (Suc i) s"
    using here lt Suc.prems(1)
    by (subst processValue_loop.simps) (auto split: option.splits)
  also have "\<dots> = processValue_loop arr code v j s"
    using Suc.hyps(2) lt Suc.prems by (intro Suc.hyps(1)) auto
  finally show ?case .
qed

lemma fmaSize_loop_skip:
  assumes "k < length src" "i \<le> k" "handler (src ! k) = None"
    and "\<And>m. i \<le> m \<Longrightarrow> m < k \<Longrightarrow> handler (src ! m) \<noteq> None"
  shows "fmaSize_loop src i = Inr k"
  using assms
proof (induction "k - i" arbitrary: i)
  case 0
  then show ?case by (subst fmaSize_loop.simps) (simp add: is_null_iff)
next
  case (Suc d)
  then have lt: "i < k" by simp
  have "fmaSize_loop src i = fmaSize_loop src (Suc i)"
    using Suc.prems(4) [of i] lt Suc.prems(1)
    by (subst fmaSize_loop.simps) (simp add: is_null_iff)
  also have "\<dots> = Inr k"
    using Suc.hyps(2) lt Suc.prems by (intro Suc.hyps(1)) auto
  finally show ?case .
qed

subsection \<open>The conversion of a slot index to \<^verbatim>\<open>int\<close>\<close>

lemma to_int_eq: "to_int i = signed_take_bit 31 (int i)"
  by (simp add: to_int_def signed_of_nat)

lemma to_int_small: "i < 2 ^ 31 \<Longrightarrow> to_int i = int i"
  unfolding to_int_eq by (rule signed_take_bit_int_eq_self) simp_all

subsection \<open>The scan of \<^verbatim>\<open>addHandler\<close>\<close>

lemma addHandler_loop_none:
  assumes "n \<le> length arr"
    and "\<And>k. i \<le> k \<Longrightarrow> k < n \<Longrightarrow> handler (arr ! k) \<noteq> None"
  shows "addHandler_loop arr n i slot = Inr slot"
  using assms
proof (induction "n - i" arbitrary: i)
  case 0
  then show ?case by (subst addHandler_loop.simps) simp
next
  case (Suc d)
  then have lt: "i < n" by simp
  have "addHandler_loop arr n i slot = addHandler_loop arr n (Suc i) slot"
    using Suc.prems(2) [of i] lt Suc.prems(1)
    by (subst addHandler_loop.simps) (auto simp: is_null_iff)
  also have "\<dots> = Inr slot"
    using Suc.hyps(2) lt Suc.prems by (intro Suc.hyps(1)) auto
  finally show ?case .
qed

lemma addHandler_loop_last:
  assumes "n \<le> length arr" "j < n" "i \<le> j" "handler (arr ! j) = None"
    and "\<And>k. j < k \<Longrightarrow> k < n \<Longrightarrow> handler (arr ! k) \<noteq> None"
  shows "addHandler_loop arr n i slot = Inr (to_int j)"
  using assms
proof (induction "j - i" arbitrary: i slot)
  case 0
  then have "i = j" by simp
  then have "addHandler_loop arr n i slot = addHandler_loop arr n (Suc j) (to_int j)"
    using "0.prems" by (subst addHandler_loop.simps) (simp add: is_null_iff)
  also have "\<dots> = Inr (to_int j)"
    using "0.prems" by (intro addHandler_loop_none) auto
  finally show ?case .
next
  case (Suc d)
  then have lt: "i < j" by simp
  define slot' where "slot' = (if is_null (handler (arr ! i)) then to_int i else slot)"
  have "addHandler_loop arr n i slot = addHandler_loop arr n (Suc i) slot'"
    using lt Suc.prems(1,2) unfolding slot'_def by (subst addHandler_loop.simps) simp
  also have "\<dots> = Inr (to_int j)"
    using Suc.hyps(2) lt Suc.prems by (intro Suc.hyps(1)) auto
  finally show ?case .
qed

lemma addHandler_loop_in_bounds:
  assumes "addHandler_loop arr n i slot = Inr x" "i < n"
  shows "n \<le> length arr"
proof (rule ccontr)
  assume "\<not> n \<le> length arr"
  then have big: "length arr < n" by simp
  have "addHandler_loop arr n i slot = Inl OutOfBounds" if "i \<le> length arr" for i slot
    using that
  proof (induction "length arr - i" arbitrary: i slot)
    case 0
    then show ?case using big by (subst addHandler_loop.simps) simp
  next
    case (Suc d)
    then have lt: "i < length arr" by simp
    define slot' where "slot' = (if is_null (handler (arr ! i)) then to_int i else slot)"
    have "addHandler_loop arr n i slot = addHandler_loop arr n (Suc i) slot'"
      using lt big unfolding slot'_def by (subst addHandler_loop.simps) simp
    also have "\<dots> = Inl OutOfBounds"
      using Suc.hyps(2) lt by (intro Suc.hyps(1)) auto
    finally show ?case .
  qed
  moreover have "addHandler_loop arr n i slot = Inl OutOfBounds" if "length arr < i"
    using that assms(2) by (subst addHandler_loop.simps) simp
  ultimately have "addHandler_loop arr n i slot = Inl OutOfBounds"
    by (cases "i \<le> length arr") auto
  with assms(1) show False by simp
qed

lemma last_null_exists:
  assumes "i < n" "handler (arr ! i) = None"
  shows "\<exists>j. i \<le> j \<and> j < n \<and> handler (arr ! j) = None \<and> (\<forall>k. j < k \<and> k < n \<longrightarrow> handler (arr ! k) \<noteq> None)"
proof -
  let ?P = "\<lambda>j. j < n \<and> handler (arr ! j) = None"
  have P: "?P i" using assms by simp
  have bound: "\<forall>y. ?P y \<longrightarrow> y \<le> n" by simp
  from Nat.ex_has_greatest_nat [of ?P i n] P bound
  obtain j where j: "?P j" "\<And>y. ?P y \<Longrightarrow> y \<le> j" by blast
  have "i \<le> j" using j(2) [of i] P by simp
  moreover have "handler (arr ! k) \<noteq> None" if "j < k" "k < n" for k
    using j(2) [of k] that by auto
  ultimately show ?thesis using j(1) by blast
qed

section \<open>Lookup: \<^verbatim>\<open>validateAddress\<close> and \<^verbatim>\<open>processValue\<close>\<close>

lemma no_match_beforeD:
  "no_match_before arr code j \<Longrightarrow> j \<le> length arr \<Longrightarrow> k < j \<Longrightarrow>
     handler (arr ! k) \<noteq> None \<and> functionCode (arr ! k) \<noteq> code"
  by (simp add: no_match_before_def list_all_take_iff is_null_iff)

lemma validateAddress_loop_found:
  assumes "j < length arr" "no_match_before arr code j"
    and "handler (arr ! j) \<noteq> None" "functionCode (arr ! j) = code"
  shows "validateAddress_loop arr code 0 = Inr True"
proof -
  have "validateAddress_loop arr code 0 = validateAddress_loop arr code j"
    using assms(1,2) by (intro validateAddress_loop_skip) (auto dest: no_match_beforeD)
  also have "\<dots> = Inr True"
    using assms by (subst validateAddress_loop.simps) (simp add: is_null_iff)
  finally show ?thesis .
qed

lemma validateAddress_loop_sentinel:
  assumes "j < length arr" "no_match_before arr code j" "handler (arr ! j) = None"
  shows "validateAddress_loop arr code 0 = Inr False"
proof -
  have "validateAddress_loop arr code 0 = validateAddress_loop arr code j"
    using assms(1,2) by (intro validateAddress_loop_skip) (auto dest: no_match_beforeD)
  also have "\<dots> = Inr False"
    using assms by (subst validateAddress_loop.simps) (simp add: is_null_iff)
  finally show ?thesis .
qed

lemma processValue_loop_found:
  assumes "j < length arr" "no_match_before arr code j"
    and "handler (arr ! j) = Some h" "functionCode (arr ! j) = code"
  shows "processValue_loop arr code v 0 s = Inr (h (ucast code) v s)"
proof -
  have "processValue_loop arr code v 0 s = processValue_loop arr code v j s"
    using assms(1,2) by (intro processValue_loop_skip) (auto dest: no_match_beforeD)
  also have "\<dots> = Inr (h (ucast code) v s)"
    using assms by (subst processValue_loop.simps) simp
  finally show ?thesis .
qed

lemma processValue_loop_sentinel:
  assumes "j < length arr" "no_match_before arr code j" "handler (arr ! j) = None"
  shows "processValue_loop arr code v 0 s = Inr (False, s)"
proof -
  have "processValue_loop arr code v 0 s = processValue_loop arr code v j s"
    using assms(1,2) by (intro processValue_loop_skip) (auto dest: no_match_beforeD)
  also have "\<dots> = Inr (False, s)"
    using assms by (subst processValue_loop.simps) simp
  finally show ?thesis .
qed

text \<open>
  Claim C1. \<^verbatim>\<open>processValue(code, v)\<close> scans the slots from index \<open>0\<close>. When slot \<open>j\<close> is
  the first to hold the code and no slot before it has a null handler, the handler of slot
  \<open>j\<close> is called with the code (as the \<^verbatim>\<open>unsigned char\<close> the handler takes) and the
  value, and its result is the result of \<^verbatim>\<open>processValue\<close>; the state after the call is
  the state that one handler left. When slot \<open>j\<close> is the first with a null handler and no
  slot before it holds the code, the result is \<^verbatim>\<open>false\<close> and no handler has run.
  In particular, on a table with \<open>(1, hA)\<close> in slot \<open>0\<close>, \<open>(2, hB)\<close> in slot \<open>1\<close> and a
  null handler in slot \<open>2\<close>: \<^verbatim>\<open>processValue(1, v)\<close> is \<open>hA 1 v\<close>, \<^verbatim>\<open>processValue(2, v)\<close>
  is \<open>hB 2 v\<close>, \<^verbatim>\<open>processValue(3, v)\<close> is \<^verbatim>\<open>false\<close>, and \<^verbatim>\<open>validateAddress\<close> is
  \<^verbatim>\<open>true\<close> for \<open>1\<close> and \<open>2\<close> and \<^verbatim>\<open>false\<close> for \<open>3\<close>.
\<close>

theorem processValue_dispatch:
  fixes t :: "'s FunctionMapper"
  shows
    "(j < length (functionMapArray t) \<and> no_match_before (functionMapArray t) code j \<longrightarrow>
        (\<forall>h. handler (functionMapArray t ! j) = Some h \<and>
              functionCode (functionMapArray t ! j) = code \<longrightarrow>
              processValue t code v s = Inr (h (ucast code) v s)) \<and>
        (handler (functionMapArray t ! j) = None \<longrightarrow>
              processValue t code v s = Inr (False, s))) \<and>
     (functionMapArray t =
        \<lparr> functionCode = 1, handler = Some hA \<rparr> #
        \<lparr> functionCode = 2, handler = Some hB \<rparr> #
        \<lparr> functionCode = c, handler = None \<rparr> # rest \<longrightarrow>
        processValue t 1 v s = Inr (hA 1 v s) \<and>
        processValue t 2 v s = Inr (hB 2 v s) \<and>
        processValue t 3 v s = Inr (False, s) \<and>
        validateAddress t 1 = Inr True \<and>
        validateAddress t 2 = Inr True \<and>
        validateAddress t 3 = Inr False)"
proof (intro conjI impI allI)
  fix h
  assume "j < length (functionMapArray t) \<and> no_match_before (functionMapArray t) code j"
    and "handler (functionMapArray t ! j) = Some h \<and> functionCode (functionMapArray t ! j) = code"
  then show "processValue t code v s = Inr (h (ucast code) v s)"
    by (auto simp: processValue_def intro: processValue_loop_found)
next
  assume "j < length (functionMapArray t) \<and> no_match_before (functionMapArray t) code j"
    and "handler (functionMapArray t ! j) = None"
  then show "processValue t code v s = Inr (False, s)"
    by (auto simp: processValue_def intro: processValue_loop_sentinel)
next
  assume arr: "functionMapArray t =
        \<lparr> functionCode = 1, handler = Some hA \<rparr> #
        \<lparr> functionCode = 2, handler = Some hB \<rparr> #
        \<lparr> functionCode = c, handler = None \<rparr> # rest"
  show "processValue t 1 v s = Inr (hA 1 v s)"
    using processValue_loop_found [of 0 "functionMapArray t" 1 hA v s]
    by (simp add: processValue_def arr no_match_before_def)
  show "processValue t 2 v s = Inr (hB 2 v s)"
    using processValue_loop_found [of 1 "functionMapArray t" 2 hB v s]
    by (simp add: processValue_def arr no_match_before_def is_null_iff)
  show "processValue t 3 v s = Inr (False, s)"
    using processValue_loop_sentinel [of 2 "functionMapArray t" 3 v s]
    by (simp add: processValue_def arr no_match_before_def is_null_iff)
  show "validateAddress t 1 = Inr True"
    using validateAddress_loop_found [of 0 "functionMapArray t" 1]
    by (simp add: validateAddress_def arr no_match_before_def)
  show "validateAddress t 2 = Inr True"
    using validateAddress_loop_found [of 1 "functionMapArray t" 2]
    by (simp add: validateAddress_def arr no_match_before_def is_null_iff)
  show "validateAddress t 3 = Inr False"
    using validateAddress_loop_sentinel [of 2 "functionMapArray t" 3]
    by (simp add: validateAddress_def arr no_match_before_def is_null_iff)
qed

text \<open>The theorem on the example table, with handlers that log their calls.\<close>

theorem processValue_dispatch_witness:
  "processValue example_table 1 7 [] = Inr (True, [(1, 7)]) \<and>
   processValue example_table 2 7 [] = Inr (False, [(2, 7)]) \<and>
   processValue example_table 3 7 [] = Inr (False, []) \<and>
   validateAddress example_table 1 = Inr True \<and>
   validateAddress example_table 2 = Inr True \<and>
   validateAddress example_table 3 = Inr False"
  using processValue_dispatch [where t = example_table and j = 1 and code = 2 and v = 7
      and s = "[]" and hA = "logging True" and hB = "logging False" and c = 0 and rest = "[]"]
  by (simp add: example_table_def example_map_def no_match_before_def is_null_iff logging_def)

subsection \<open>Duplicate codes\<close>

text \<open>Among live slots that hold a code there is a first one.\<close>

lemma occupiedD:
  "occupied arr n \<Longrightarrow> k < n \<Longrightarrow> handler (arr ! k) \<noteq> None"
  by (simp add: occupied_def list_all_take_iff is_null_iff)

lemma first_match:
  assumes "occupied arr (Suc j1)" "functionCode (arr ! j1) = code"
  obtains j h where "j \<le> j1" "no_match_before arr code j"
    "functionCode (arr ! j) = code" "handler (arr ! j) = Some h"
proof -
  define j where "j = (LEAST k. functionCode (arr ! k) = code)"
  have le: "j \<le> j1"
    unfolding j_def using assms(2) by (rule Least_le)
  have at: "functionCode (arr ! j) = code"
    unfolding j_def using assms(2) by (rule LeastI)
  have before: "functionCode (arr ! k) \<noteq> code" if "k < j" for k
    using that not_less_Least unfolding j_def by blast
  have live: "handler (arr ! k) \<noteq> None" if "k \<le> j1" for k
    using assms(1) that by (intro occupiedD [of arr "Suc j1"]) auto
  have "no_match_before arr code j"
    using before live le by (auto simp: no_match_before_def list_all_take_iff is_null_iff)
  moreover obtain h where "handler (arr ! j) = Some h"
    using live [of j] le by auto
  ultimately show ?thesis using that le at by blast
qed

text \<open>
  Claim C7. When two live slots \<open>j1 < j2\<close> (no null handler at or below \<open>j2\<close>) hold the same
  code, the lookup resolves to the lowest slot \<open>j\<close> that holds the code:
  \<^verbatim>\<open>validateAddress\<close> returns \<^verbatim>\<open>true\<close>, and \<^verbatim>\<open>processValue\<close> returns what the handler
  of slot \<open>j\<close> returns. The state after \<^verbatim>\<open>processValue\<close> is the state after that one
  call: no handler of a later slot has run.
\<close>

theorem lookup_lowest_index:
  fixes t :: "'s FunctionMapper"
  assumes "occupied (functionMapArray t) (Suc j2)" and "j1 < j2"
    and "functionCode (functionMapArray t ! j1) = code"
    and "functionCode (functionMapArray t ! j2) = code"
  shows "\<exists>j h. j \<le> j1 \<and> no_match_before (functionMapArray t) code j \<and>
           functionCode (functionMapArray t ! j) = code \<and>
           handler (functionMapArray t ! j) = Some h \<and>
           validateAddress t code = Inr True \<and>
           processValue t code v s = Inr (h (ucast code) v s)"
proof -
  have len: "Suc j2 \<le> length (functionMapArray t)"
    using assms(1) by (simp add: occupied_def)
  have "occupied (functionMapArray t) (Suc j1)"
    using assms(1,2) by (auto simp: occupied_def list_all_take_iff)
  then obtain j h where j: "j \<le> j1" "no_match_before (functionMapArray t) code j"
    "functionCode (functionMapArray t ! j) = code" "handler (functionMapArray t ! j) = Some h"
    using assms(3) by (rule first_match)
  have lt: "j < length (functionMapArray t)"
    using j(1) assms(2) len by simp
  have "validateAddress t code = Inr True"
    unfolding validateAddress_def using lt j by (intro validateAddress_loop_found) auto
  moreover have "processValue t code v s = Inr (h (ucast code) v s)"
    unfolding processValue_def using lt j by (intro processValue_loop_found) auto
  ultimately show ?thesis using j by blast
qed

text \<open>
  On the table with two entries for the code \<open>1\<close> the first handler answers, and the log
  of handler calls holds its call alone.
\<close>

theorem lookup_lowest_index_witness:
  "validateAddress duplicate_table 1 = Inr True \<and>
   processValue duplicate_table 1 7 [] = Inr (True, [(1, 7)])"
proof -
  have arr: "functionMapArray duplicate_table =
         [\<lparr> functionCode = 1, handler = Some (logging True) \<rparr>,
          \<lparr> functionCode = 1, handler = Some (logging False) \<rparr>,
          \<lparr> functionCode = 0, handler = None \<rparr>]"
    by (simp add: duplicate_table_def)
  have occ: "occupied (functionMapArray duplicate_table) (Suc 1)"
    by (simp add: arr occupied_def is_null_def)
  from lookup_lowest_index [of duplicate_table 1 0 1 7 "[]", OF occ]
  obtain j h where j: "j \<le> 0" "handler (functionMapArray duplicate_table ! j) = Some h"
    "validateAddress duplicate_table 1 = Inr True"
    "processValue duplicate_table 1 7 [] = Inr (h (ucast (1 :: uint)) 7 [])"
    by (auto simp: arr)
  then have "h = logging True" by (simp add: arr)
  with j show ?thesis by (simp add: logging_def)
qed

subsection \<open>The code a handler receives\<close>

lemma ucast_uchar_neq:
  fixes n :: uint
  assumes "255 < unat n"
  shows "unat (ucast n :: uchar) = unat n mod 256" "(ucast (ucast n :: uchar) :: uint) \<noteq> n"
proof -
  show a: "unat (ucast n :: uchar) = unat n mod 256"
    by (simp add: unsigned_ucast_eq take_bit_eq_mod)
  have "unat (ucast (ucast n :: uchar) :: uint) = unat n mod 256"
    by (simp add: unsigned_ucast_eq take_bit_eq_mod unat_mod)
  then have "unat (ucast (ucast n :: uchar) :: uint) < 256"
    by simp
  with assms show "(ucast (ucast n :: uchar) :: uint) \<noteq> n" by auto
qed

text \<open>
  Claim C10. The comparison with the stored codes is at the width of \<^verbatim>\<open>unsigned int\<close>,
  and the matching handler receives the code converted to \<^verbatim>\<open>unsigned char\<close>: when a
  live slot holds a code \<open>n > 255\<close>, \<^verbatim>\<open>processValue(n, v)\<close> calls the handler of the entry
  the lookup resolves to (the lowest slot holding \<open>n\<close>, which is that slot when the code is
  stored once) with \<open>n mod 256\<close> and \<open>v\<close>, and \<open>n mod 256\<close> differs from \<open>n\<close>.
\<close>

theorem processValue_truncates_code:
  fixes t :: "'s FunctionMapper"
  assumes "occupied (functionMapArray t) (Suc j1)"
    and "functionCode (functionMapArray t ! j1) = n"
    and "255 < unat n"
  shows "\<exists>j h. j \<le> j1 \<and> no_match_before (functionMapArray t) n j \<and>
           functionCode (functionMapArray t ! j) = n \<and>
           handler (functionMapArray t ! j) = Some h \<and>
           processValue t n v s = Inr (h (ucast n) v s) \<and>
           unat (ucast n :: uchar) = unat n mod 256 \<and>
           (ucast (ucast n :: uchar) :: uint) \<noteq> n"
proof -
  have len: "Suc j1 \<le> length (functionMapArray t)"
    using assms(1) by (simp add: occupied_def)
  obtain j h where j: "j \<le> j1" "no_match_before (functionMapArray t) n j"
    "functionCode (functionMapArray t ! j) = n" "handler (functionMapArray t ! j) = Some h"
    using assms(1,2) by (rule first_match)
  have lt: "j < length (functionMapArray t)"
    using j(1) len by simp
  have "processValue t n v s = Inr (h (ucast n) v s)"
    unfolding processValue_def using lt j by (intro processValue_loop_found) auto
  then show ?thesis using j ucast_uchar_neq [OF assms(3)] by blast
qed

text \<open>The handler stored under the code \<open>300\<close> is called with \<open>44\<close>.\<close>

theorem processValue_truncates_code_witness:
  "processValue wide_code_table 300 7 [] = Inr (True, [(44, 7)]) \<and>
   unat (ucast (300 :: uint) :: uchar) = 44"
proof -
  have arr: "functionMapArray wide_code_table =
         [\<lparr> functionCode = 300, handler = Some (logging True) \<rparr>,
          \<lparr> functionCode = 0, handler = None \<rparr>]"
    by (simp add: wide_code_table_def)
  have occ: "occupied (functionMapArray wide_code_table) (Suc 0)"
    by (simp add: arr occupied_def is_null_def)
  from processValue_truncates_code [of wide_code_table 0 300 7 "[]", OF occ]
  obtain j h where j: "j \<le> 0" "handler (functionMapArray wide_code_table ! j) = Some h"
    "processValue wide_code_table 300 7 [] = Inr (h (ucast (300 :: uint)) 7 [])"
    by (auto simp: arr)
  then have "h = logging True" by (simp add: arr)
  with j show ?thesis by (simp add: logging_def)
qed

section \<open>Construction\<close>

lemma live_entriesD:
  assumes "live_entries src k"
  shows "k < length src" "handler (src ! k) = None" "\<And>i. i < k \<Longrightarrow> handler (src ! i) \<noteq> None"
  using assms by (simp_all add: live_entries_def list_all_take_iff is_null_iff)

lemma fmaSize_loop_live: "live_entries src k \<Longrightarrow> fmaSize_loop src 0 = Inr k"
  by (rule fmaSize_loop_skip) (auto dest: live_entriesD)

lemma FunctionMapper_Some:
  assumes "live_entries src (unat k)"
  shows "FunctionMapper (Some src) c = Inr (allocate src k (if c < k then k else c))"
  using fmaSize_loop_live [OF assms] by (simp add: FunctionMapper_def)

lemma FunctionMapper_None:
  "FunctionMapper None c = Inr (allocate [] 0 (if c = 0 then 10 else c))"
  by (simp add: FunctionMapper_def)

lemma arraySize_allocate [simp]: "arraySize (allocate src k c) = c"
  by (simp add: allocate_def)

lemma length_allocate [simp]: "length (functionMapArray (allocate src k c)) = unat (c + 1)"
  by (simp add: allocate_def)

lemma nth_allocate:
  "i < unat (c + 1) \<Longrightarrow> functionMapArray (allocate src k c) ! i = init_slot src k i"
  by (simp add: allocate_def)

lemma unat_plus_one: "c \<noteq> - 1 \<Longrightarrow> unat (c + 1) = Suc (unat c)" for c :: uint
proof -
  assume "c \<noteq> - 1"
  then have "1 + c \<noteq> 0"
    by (metis add.commute eq_neg_iff_add_eq_0)
  then have "unat (1 + c) = Suc (unat c)"
    by (rule unatSuc)
  then show ?thesis by (simp add: add.commute)
qed

text \<open>
  Claim C2. With an initial array of \<open>k\<close> live entries and the requested capacity \<open>c\<close> the
  constructor returns a table whose capacity \<^verbatim>\<open>arraySize\<close> is \<open>max c k\<close>: it is \<open>k\<close> when
  \<open>c < k\<close> and \<open>c\<close> when \<open>k \<le> c\<close>. With no initial array the capacity is \<open>c\<close> when \<open>c\<close> is
  not zero and \<open>10\<close> when it is. The count \<open>k\<close> is an \<^verbatim>\<open>unsigned int\<close>, as \<^verbatim>\<open>fmaSize\<close> is.
\<close>

theorem FunctionMapper_capacity:
  "(live_entries src (unat k) \<longrightarrow>
      (\<exists>t :: 's FunctionMapper. FunctionMapper (Some src) c = Inr t \<and> arraySize t = max c k \<and>
           (c < k \<longrightarrow> arraySize t = k) \<and> (k \<le> c \<longrightarrow> arraySize t = c))) \<and>
   (\<exists>t :: 's FunctionMapper. FunctionMapper None c = Inr t \<and>
           arraySize t = (if c = 0 then 10 else c))"
  by (auto simp: FunctionMapper_Some FunctionMapper_None max_def)


text \<open>The example array has two live entries: capacities \<open>1\<close>, \<open>5\<close>, and none.\<close>

theorem FunctionMapper_capacity_witness:
  "(\<exists>t. FunctionMapper (Some example_map) 1 = Inr t \<and> arraySize t = 2) \<and>
   (\<exists>t. FunctionMapper (Some example_map) 5 = Inr t \<and> arraySize t = 5) \<and>
   (\<exists>t :: (uchar \<times> uchar) list FunctionMapper. FunctionMapper None 0 = Inr t \<and> arraySize t = 10) \<and>
   (\<exists>t :: (uchar \<times> uchar) list FunctionMapper. FunctionMapper None 7 = Inr t \<and> arraySize t = 7)"
proof -
  have live: "live_entries example_map (unat (2 :: uint))"
    by (simp add: live_entries_def example_map_def is_null_def)
  show ?thesis
    using FunctionMapper_capacity [of example_map 2 1] FunctionMapper_capacity [of example_map 2 5]
      FunctionMapper_capacity [of example_map 2 0] FunctionMapper_capacity [of example_map 2 7] live
    by auto
qed

section \<open>Adding a handler\<close>

lemma addHandler_when_full:
  assumes "occupied (functionMapArray t) (unat (arraySize t))"
  shows "addHandler t code h = Inr (False, t)"
proof -
  have "unat (arraySize t) \<le> length (functionMapArray t)"
    using assms by (simp add: occupied_def)
  moreover have "handler (functionMapArray t ! k) \<noteq> None" if "k < unat (arraySize t)" for k
    using assms that by (rule occupiedD)
  ultimately have "addHandler_loop (functionMapArray t) (unat (arraySize t)) 0 (- 1) = Inr (- 1)"
    by (intro addHandler_loop_none) auto
  then show ?thesis by (simp add: addHandler_def)
qed

lemma addHandler_at_last_null:
  assumes "unat (arraySize t) \<le> length (functionMapArray t)"
    and "unat (arraySize t) \<le> 2 ^ 31"
    and "j < unat (arraySize t)" "handler (functionMapArray t ! j) = None"
    and "\<And>k. j < k \<Longrightarrow> k < unat (arraySize t) \<Longrightarrow> handler (functionMapArray t ! k) \<noteq> None"
  shows "addHandler t code h =
           Inr (True, t\<lparr> functionMapArray :=
                          (functionMapArray t)[j := \<lparr> functionCode = ucast code, handler = h \<rparr>] \<rparr>)"
proof -
  have loop: "addHandler_loop (functionMapArray t) (unat (arraySize t)) 0 (- 1) = Inr (to_int j)"
    using assms by (intro addHandler_loop_last) auto
  have "j < 2 ^ 31" using assms(2,3) by simp
  then have "to_int j = int j" by (rule to_int_small)
  then show ?thesis using loop assms(1,3) by (simp add: addHandler_def)
qed

text \<open>
  Claim C9. An initial array that is not null and whose first entry has the null handler,
  with the requested capacity \<open>0\<close>, gives a table of capacity \<open>0\<close> and not of the default
  capacity \<open>10\<close>: its only slot is the terminator, and every \<^verbatim>\<open>addHandler\<close> call returns
  \<^verbatim>\<open>false\<close> and leaves the table as it is, so that the calls after it do the same.
\<close>

theorem empty_list_zero_capacity:
  "\<exists>t :: 's FunctionMapper.
      FunctionMapper (Some (\<lparr> functionCode = x, handler = None \<rparr> # rest)) 0 = Inr t \<and>
      arraySize t = 0 \<and>
      functionMapArray t = [\<lparr> functionCode = 0, handler = None \<rparr>] \<and>
      (\<forall>code h. addHandler t code h = Inr (False, t))"
proof -
  let ?src = "\<lparr> functionCode = x, handler = None \<rparr> # rest"
  let ?t = "allocate ?src 0 0 :: 's FunctionMapper"
  have "live_entries ?src (unat (0 :: uint))"
    by (simp add: live_entries_def is_null_def)
  then have "FunctionMapper (Some ?src) 0 = Inr ?t"
    using FunctionMapper_Some [of ?src 0 0] by simp
  moreover have "functionMapArray ?t = [\<lparr> functionCode = 0, handler = None \<rparr>]"
    by (simp add: allocate_def init_slot_def)
  moreover have "addHandler ?t code h = Inr (False, ?t)" for code h
    by (rule addHandler_when_full) (simp add: occupied_def)
  ultimately show ?thesis by auto
qed

text \<open>
  Claim C3. When all \<^verbatim>\<open>arraySize\<close> real slots hold callable handlers, \<^verbatim>\<open>addHandler\<close>
  returns \<^verbatim>\<open>false\<close> and the table is unchanged, codes and handlers of all slots. In
  particular the table built from an initial array of \<open>k\<close> live entries with no capacity
  argument (the default \<open>0\<close>) has capacity \<open>k\<close>, all \<open>k\<close> real slots occupied, and every
  \<^verbatim>\<open>addHandler\<close> call on it returns \<^verbatim>\<open>false\<close> with no change. The number \<open>k + 1\<close> of
  slots to allocate is an \<^verbatim>\<open>unsigned int\<close> that has not wrapped: \<open>Suc k < 2 ^ 32\<close>.
\<close>

theorem addHandler_full:
  fixes t :: "'s FunctionMapper" and src :: "'s FunctionMap list"
  shows
    "(occupied (functionMapArray t) (unat (arraySize t)) \<longrightarrow>
        addHandler t code h = Inr (False, t)) \<and>
     (live_entries src k \<and> Suc k < 2 ^ 32 \<longrightarrow>
        (\<exists>t0. FunctionMapper (Some src) 0 = Inr t0 \<and>
              unat (arraySize t0) = k \<and>
              length (functionMapArray t0) = Suc k \<and>
              occupied (functionMapArray t0) k \<and>
              (\<forall>code h. addHandler t0 code h = Inr (False, t0))))"
proof (intro conjI impI)
  assume "occupied (functionMapArray t) (unat (arraySize t))"
  then show "addHandler t code h = Inr (False, t)"
    by (rule addHandler_when_full)
next
  assume a: "live_entries src k \<and> Suc k < 2 ^ 32"
  define kw :: uint where "kw = of_nat k"
  have k: "unat kw = k"
    using a by (simp add: kw_def unat_of_nat)
  have "kw \<noteq> - 1"
  proof
    assume "kw = - 1"
    then have "unat kw = unat (- 1 :: uint)" by simp
    then show False using a k by (simp add: unsigned_minus_1_eq_mask mask_eq_exp_minus_1)
  qed
  then have len: "unat (kw + 1) = Suc k"
    using k by (simp add: unat_plus_one)
  let ?t = "allocate src kw kw :: 's FunctionMapper"
  have "FunctionMapper (Some src) 0 = Inr (allocate src kw (if 0 < kw then kw else 0))"
    using a k by (intro FunctionMapper_Some) simp
  moreover have "(if 0 < kw then kw else 0) = kw"
    by (simp add: word_gt_0)
  ultimately have ctor: "FunctionMapper (Some src) 0 = Inr ?t" by simp
  have occ: "occupied (functionMapArray ?t) k"
    using a len k
    by (auto simp: occupied_def list_all_take_iff nth_allocate init_slot_def is_null_iff
        dest: live_entriesD)
  then have "occupied (functionMapArray ?t) (unat (arraySize ?t))"
    using k by simp
  then have "addHandler ?t code h = Inr (False, ?t)" for code h
    by (rule addHandler_when_full)
  then show "\<exists>t0. FunctionMapper (Some src) 0 = Inr t0 \<and>
              unat (arraySize t0) = k \<and>
              length (functionMapArray t0) = Suc k \<and>
              occupied (functionMapArray t0) k \<and>
              (\<forall>code h. addHandler t0 code h = Inr (False, t0))"
    using ctor k len occ by auto
qed

text \<open>The example table is the one built from the example array, and it is full.\<close>

theorem addHandler_full_witness:
  "(\<exists>t0. FunctionMapper (Some example_map) 0 = Inr t0 \<and> unat (arraySize t0) = 2 \<and>
         length (functionMapArray t0) = 3 \<and>
         (\<forall>code h. addHandler t0 code h = Inr (False, t0))) \<and>
   addHandler example_table 9 (Some (logging True)) = Inr (False, example_table)"
proof -
  have live: "live_entries example_map 2"
    by (simp add: live_entries_def example_map_def is_null_def)
  have occ: "occupied (functionMapArray example_table) (unat (arraySize example_table))"
    by (simp add: occupied_def example_table_def example_map_def is_null_def)
  show ?thesis
    using addHandler_full [of example_table 9 "Some (logging True)" example_map 2] occ live
    by auto
qed

text \<open>The table of capacity \<open>5\<close> built from an array of two live entries.\<close>

lemma construct_two_of_five:
  fixes h1 h2 :: "'s handler_fn" and c1 c2 c3 :: uint
  defines "src \<equiv> [\<lparr> functionCode = c1, handler = Some h1 \<rparr>,
                   \<lparr> functionCode = c2, handler = Some h2 \<rparr>,
                   \<lparr> functionCode = c3, handler = None \<rparr>]"
  shows "FunctionMapper (Some src) 5 =
           Inr \<lparr> arraySize = 5,
                 functionMapArray =
                   [\<lparr> functionCode = c1, handler = Some h1 \<rparr>,
                    \<lparr> functionCode = c2, handler = Some h2 \<rparr>,
                    \<lparr> functionCode = 0, handler = None \<rparr>,
                    \<lparr> functionCode = 0, handler = None \<rparr>,
                    \<lparr> functionCode = 0, handler = None \<rparr>,
                    \<lparr> functionCode = 0, handler = None \<rparr>] \<rparr>"
proof -
  have "live_entries src (unat (2 :: uint))"
    by (simp add: live_entries_def src_def is_null_def)
  then have "FunctionMapper (Some src) 5 = Inr (allocate src 2 (if (5 :: uint) < 2 then 2 else 5))"
    by (rule FunctionMapper_Some)
  then show ?thesis
    by (simp add: allocate_def init_slot_def src_def upt_rec)
qed

lemma addHandler_capacity_five:
  fixes h1 h2 :: "'s handler_fn"
  shows "\<exists>t0. FunctionMapper (Some [\<lparr> functionCode = c1, handler = Some h1 \<rparr>,
                                  \<lparr> functionCode = c2, handler = Some h2 \<rparr>,
                                  \<lparr> functionCode = c3, handler = None \<rparr>]) 5 = Inr t0 \<and>
           addHandler t0 code h =
             Inr (True, \<lparr> arraySize = 5,
                          functionMapArray =
                            [\<lparr> functionCode = c1, handler = Some h1 \<rparr>,
                             \<lparr> functionCode = c2, handler = Some h2 \<rparr>,
                             \<lparr> functionCode = 0, handler = None \<rparr>,
                             \<lparr> functionCode = 0, handler = None \<rparr>,
                             \<lparr> functionCode = ucast code, handler = h \<rparr>,
                             \<lparr> functionCode = 0, handler = None \<rparr>] \<rparr>)"
proof -
  let ?t0 = "\<lparr> arraySize = 5,
                 functionMapArray =
                   [\<lparr> functionCode = c1, handler = Some h1 \<rparr>,
                    \<lparr> functionCode = c2, handler = Some h2 \<rparr>,
                    \<lparr> functionCode = 0, handler = None \<rparr>,
                    \<lparr> functionCode = 0, handler = None \<rparr>,
                    \<lparr> functionCode = 0, handler = None \<rparr>,
                    \<lparr> functionCode = 0, handler = None \<rparr>] \<rparr> :: 's FunctionMapper"
  have "addHandler ?t0 code h =
          Inr (True, ?t0\<lparr> functionMapArray :=
                          (functionMapArray ?t0)
                            [4 := \<lparr> functionCode = ucast code, handler = h \<rparr>] \<rparr>)"
    by (rule addHandler_at_last_null) simp_all
  then show ?thesis
    by (simp add: construct_two_of_five)
qed

text \<open>
  The placement of \<^verbatim>\<open>addHandler\<close> on a table of at most \<open>2 ^ 31\<close> real slots, where every
  slot index is a value of the \<^verbatim>\<open>int\<close> variable \<^verbatim>\<open>slot\<close>: when a real slot is empty, the
  new entry goes to the empty real slot of highest index \<open>j\<close> (every real slot above \<open>j\<close>
  is occupied), the call returns \<^verbatim>\<open>true\<close> and changes no other slot: the new array is the
  old one updated at \<open>j\<close>. On the table of capacity \<open>5\<close> built from an array of two live
  entries the first call writes slot \<open>4\<close>; the slots \<open>2\<close> and \<open>3\<close> stay empty.
\<close>

lemma addHandler_last_empty:
  fixes t :: "'s FunctionMapper" and h1 h2 :: "'s handler_fn"
  shows
    "(unat (arraySize t) \<le> length (functionMapArray t) \<and> unat (arraySize t) \<le> 2 ^ 31 \<and>
      i < unat (arraySize t) \<and> handler (functionMapArray t ! i) = None \<longrightarrow>
        (\<exists>j. i \<le> j \<and> j < unat (arraySize t) \<and> handler (functionMapArray t ! j) = None \<and>
             (\<forall>k. j < k \<and> k < unat (arraySize t) \<longrightarrow>
                  handler (functionMapArray t ! k) \<noteq> None) \<and>
             addHandler t code h =
               Inr (True, t\<lparr> functionMapArray :=
                              (functionMapArray t)
                                [j := \<lparr> functionCode = ucast code, handler = h \<rparr>] \<rparr>))) \<and>
     (\<exists>t0. FunctionMapper (Some [\<lparr> functionCode = c1, handler = Some h1 \<rparr>,
                                  \<lparr> functionCode = c2, handler = Some h2 \<rparr>,
                                  \<lparr> functionCode = c3, handler = None \<rparr>]) 5 = Inr t0 \<and>
           addHandler t0 code h =
             Inr (True, \<lparr> arraySize = 5,
                          functionMapArray =
                            [\<lparr> functionCode = c1, handler = Some h1 \<rparr>,
                             \<lparr> functionCode = c2, handler = Some h2 \<rparr>,
                             \<lparr> functionCode = 0, handler = None \<rparr>,
                             \<lparr> functionCode = 0, handler = None \<rparr>,
                             \<lparr> functionCode = ucast code, handler = h \<rparr>,
                             \<lparr> functionCode = 0, handler = None \<rparr>] \<rparr>))"
proof (intro conjI impI)
  assume a: "unat (arraySize t) \<le> length (functionMapArray t) \<and> unat (arraySize t) \<le> 2 ^ 31 \<and>
      i < unat (arraySize t) \<and> handler (functionMapArray t ! i) = None"
  then obtain j where j: "i \<le> j" "j < unat (arraySize t)" "handler (functionMapArray t ! j) = None"
    "\<forall>k. j < k \<and> k < unat (arraySize t) \<longrightarrow> handler (functionMapArray t ! k) \<noteq> None"
    using last_null_exists [of i "unat (arraySize t)" "functionMapArray t"] by blast
  have "addHandler t code h =
               Inr (True, t\<lparr> functionMapArray :=
                              (functionMapArray t)
                                [j := \<lparr> functionCode = ucast code, handler = h \<rparr>] \<rparr>)"
    using a j by (intro addHandler_at_last_null) auto
  with j show "\<exists>j. i \<le> j \<and> j < unat (arraySize t) \<and> handler (functionMapArray t ! j) = None \<and>
             (\<forall>k. j < k \<and> k < unat (arraySize t) \<longrightarrow>
                  handler (functionMapArray t ! k) \<noteq> None) \<and>
             addHandler t code h =
               Inr (True, t\<lparr> functionMapArray :=
                              (functionMapArray t)
                                [j := \<lparr> functionCode = ucast code, handler = h \<rparr>] \<rparr>)"
    by blast
next
  show "\<exists>t0. FunctionMapper (Some [\<lparr> functionCode = c1, handler = Some h1 \<rparr>,
                                  \<lparr> functionCode = c2, handler = Some h2 \<rparr>,
                                  \<lparr> functionCode = c3, handler = None \<rparr>]) 5 = Inr t0 \<and>
           addHandler t0 code h =
             Inr (True, \<lparr> arraySize = 5,
                          functionMapArray =
                            [\<lparr> functionCode = c1, handler = Some h1 \<rparr>,
                             \<lparr> functionCode = c2, handler = Some h2 \<rparr>,
                             \<lparr> functionCode = 0, handler = None \<rparr>,
                             \<lparr> functionCode = 0, handler = None \<rparr>,
                             \<lparr> functionCode = ucast code, handler = h \<rparr>,
                             \<lparr> functionCode = 0, handler = None \<rparr>] \<rparr>)"
    by (rule addHandler_capacity_five)
qed

text \<open>
  The table of capacity \<open>5\<close> with the two example entries: slot \<open>2\<close> is empty, and the
  entry goes to slot \<open>4\<close>.
\<close>

lemma addHandler_last_empty_example:
  "FunctionMapper (Some example_map) 5 = Inr five_table \<and>
   handler (functionMapArray five_table ! 2) = None \<and>
   addHandler five_table 9 (Some (logging True)) =
     Inr (True, five_table\<lparr> functionMapArray :=
                  (functionMapArray five_table)
                    [4 := \<lparr> functionCode = 9, handler = Some (logging True) \<rparr>] \<rparr>)"
proof -
  have arr: "functionMapArray five_table =
         [\<lparr> functionCode = 1, handler = Some (logging True) \<rparr>,
          \<lparr> functionCode = 2, handler = Some (logging False) \<rparr>,
          \<lparr> functionCode = 0, handler = None \<rparr>,
          \<lparr> functionCode = 0, handler = None \<rparr>,
          \<lparr> functionCode = 0, handler = None \<rparr>,
          \<lparr> functionCode = 0, handler = None \<rparr>]"
    and sz: "arraySize five_table = 5"
    by (simp_all add: five_table_def)
  have ctor: "FunctionMapper (Some example_map) 5 = Inr five_table"
    unfolding example_map_def five_table_def by (rule construct_two_of_five)
  have pre: "unat (arraySize five_table) \<le> length (functionMapArray five_table) \<and>
      unat (arraySize five_table) \<le> 2 ^ 31 \<and> 2 < unat (arraySize five_table) \<and>
      handler (functionMapArray five_table ! 2) = None"
    by (simp add: arr sz)
  from addHandler_last_empty [of five_table 2 9 "Some (logging True)", THEN conjunct1, rule_format, OF pre]
  obtain j where j: "j < 5"
    "\<forall>k. j < k \<and> k < 5 \<longrightarrow> handler (functionMapArray five_table ! k) \<noteq> None"
    "addHandler five_table 9 (Some (logging True)) =
       Inr (True, five_table\<lparr> functionMapArray :=
                  (functionMapArray five_table)
                    [j := \<lparr> functionCode = ucast (9 :: uchar), handler = Some (logging True) \<rparr>] \<rparr>)"
    by (auto simp: sz)
  have "handler (functionMapArray five_table ! 4) = None"
    by (simp add: arr)
  with j(2) have "\<not> j < 4" by auto
  with j(1) have "j = 4" by simp
  with j(3) ctor pre show ?thesis by simp
qed

text \<open>
  Claim C4. On every table with an empty real slot, \<^verbatim>\<open>addHandler\<close> writes the new entry to
  the empty real slot of highest index, returns \<^verbatim>\<open>true\<close> and changes no other slot. The
  code breaks this on a table with an empty real slot at an index of \<open>2 ^ 31\<close> or more. The
  constructor with no initial array and the capacity \<open>2147483649\<close> returns a table of
  \<open>2147483650\<close> slots, all empty. The scan of \<^verbatim>\<open>addHandler\<close> ends with the index
  \<open>2147483648\<close> of the last empty real slot, which is \<open>- 2147483648\<close> in the \<^verbatim>\<open>int\<close>
  variable \<^verbatim>\<open>slot\<close>. That is not \<open>- 1\<close>, so the entry is written at a negative index,
  outside the array, and not to slot \<open>2147483648\<close>. On a table of at most \<open>2 ^ 31\<close> real
  slots the lemma above gives the placement the claim states.
\<close>

theorem addHandler_index_beyond_int:
  "\<exists>t :: 's FunctionMapper.
      FunctionMapper None 2147483649 = Inr t \<and>
      unat (arraySize t) = 2147483649 \<and>
      length (functionMapArray t) = 2147483650 \<and>
      handler (functionMapArray t ! 2147483648) = None \<and>
      to_int 2147483648 = - 2147483648 \<and>
      (\<forall>code h. addHandler t code h = Inl OutOfBounds)"
proof -
  let ?t = "allocate [] 0 2147483649 :: 's FunctionMapper"
  have ctor: "FunctionMapper None 2147483649 = Inr ?t"
    by (simp add: FunctionMapper_None)
  have sz: "unat (arraySize ?t) = 2147483649"
    by simp
  have len: "length (functionMapArray ?t) = 2147483650"
    by simp
  have slot: "handler (functionMapArray ?t ! k) = None" if "k < 2147483650" for k
    using that by (simp add: nth_allocate init_slot_def)
  have conv: "to_int 2147483648 = - 2147483648"
    by (simp add: to_int_eq signed_take_bit_eq_take_bit_shift take_bit_eq_mod)
  have "addHandler_loop (functionMapArray ?t) (unat (arraySize ?t)) 0 (- 1) =
          Inr (to_int 2147483648)"
  proof (rule addHandler_loop_last)
    show "unat (arraySize ?t) \<le> length (functionMapArray ?t)"
      by simp
    show "2147483648 < unat (arraySize ?t)"
      by simp
    show "(0 :: nat) \<le> 2147483648"
      by simp
    show "handler (functionMapArray ?t ! 2147483648) = None"
      by (rule slot) simp
    show "handler (functionMapArray ?t ! k) \<noteq> None"
      if "2147483648 < k" "k < unat (arraySize ?t)" for k
      using that by simp
  qed
  then have "addHandler ?t code h = Inl OutOfBounds" for code h
    by (simp add: addHandler_def conv)
  then show ?thesis
    using ctor sz len slot [of 2147483648] conv by (intro exI [of _ ?t]) simp
qed

section \<open>A lookup ends at the first null handler\<close>

text \<open>
  Claim C5. \<^verbatim>\<open>validateAddress\<close> and \<^verbatim>\<open>processValue\<close> end at the first slot with the
  null handler, whatever the slots above it hold: when no slot below it holds the code,
  both return \<^verbatim>\<open>false\<close> and no handler runs. So on the table of capacity \<open>5\<close> built from
  two live entries, after \<^verbatim>\<open>addHandler(c, h)\<close> has returned \<^verbatim>\<open>true\<close> for a code \<open>c\<close> other
  than the two initial codes, the entry \<open>(c, h)\<close> is in slot \<open>4\<close>, slot \<open>2\<close> still has the
  null handler, and \<^verbatim>\<open>validateAddress(c)\<close> and \<^verbatim>\<open>processValue(c, v)\<close> return \<^verbatim>\<open>false\<close>.
\<close>

theorem lookup_stops_at_first_null:
  fixes t :: "'s FunctionMapper" and h1 h2 :: "'s handler_fn"
  shows
    "(j < length (functionMapArray t) \<and> no_match_before (functionMapArray t) code j \<and>
      handler (functionMapArray t ! j) = None \<longrightarrow>
        validateAddress t code = Inr False \<and> processValue t code v s = Inr (False, s)) \<and>
     (ucast c \<noteq> c1 \<and> ucast c \<noteq> c2 \<longrightarrow>
        (\<exists>t0 t1. FunctionMapper (Some [\<lparr> functionCode = c1, handler = Some h1 \<rparr>,
                                      \<lparr> functionCode = c2, handler = Some h2 \<rparr>,
                                      \<lparr> functionCode = c3, handler = None \<rparr>]) 5 = Inr t0 \<and>
             addHandler t0 c h = Inr (True, t1) \<and>
             functionMapArray t1 ! 4 = \<lparr> functionCode = ucast c, handler = h \<rparr> \<and>
             handler (functionMapArray t1 ! 2) = None \<and>
             validateAddress t1 (ucast c) = Inr False \<and>
             processValue t1 (ucast c) v s = Inr (False, s)))"
proof (intro conjI impI)
  assume a: "j < length (functionMapArray t) \<and> no_match_before (functionMapArray t) code j \<and>
      handler (functionMapArray t ! j) = None"
  then show "validateAddress t code = Inr False"
    unfolding validateAddress_def by (intro validateAddress_loop_sentinel [of j]) auto
  from a show "processValue t code v s = Inr (False, s)"
    unfolding processValue_def by (intro processValue_loop_sentinel [of j]) auto
next
  assume ne: "ucast c \<noteq> c1 \<and> ucast c \<noteq> c2"
  let ?t1 = "\<lparr> arraySize = 5,
                functionMapArray =
                  [\<lparr> functionCode = c1, handler = Some h1 \<rparr>,
                   \<lparr> functionCode = c2, handler = Some h2 \<rparr>,
                   \<lparr> functionCode = 0, handler = None \<rparr>,
                   \<lparr> functionCode = 0, handler = None \<rparr>,
                   \<lparr> functionCode = ucast c, handler = h \<rparr>,
                   \<lparr> functionCode = 0, handler = None \<rparr>] \<rparr> :: 's FunctionMapper"
  obtain t0 :: "'s FunctionMapper" where t0:
    "FunctionMapper (Some [\<lparr> functionCode = c1, handler = Some h1 \<rparr>,
                           \<lparr> functionCode = c2, handler = Some h2 \<rparr>,
                           \<lparr> functionCode = c3, handler = None \<rparr>]) 5 = Inr t0"
    "addHandler t0 c h = Inr (True, ?t1)"
    using addHandler_capacity_five [of c1 h1 c2 h2 c3 c h] by blast
  have nm: "no_match_before (functionMapArray ?t1) (ucast c) 2"
    using ne by (auto simp: no_match_before_def is_null_def)
  have "validateAddress ?t1 (ucast c) = Inr False"
    unfolding validateAddress_def using nm by (intro validateAddress_loop_sentinel [of 2]) auto
  moreover have "processValue ?t1 (ucast c) v s = Inr (False, s)"
    unfolding processValue_def using nm by (intro processValue_loop_sentinel [of 2]) auto
  ultimately show "\<exists>t0 t1. FunctionMapper (Some [\<lparr> functionCode = c1, handler = Some h1 \<rparr>,
                                      \<lparr> functionCode = c2, handler = Some h2 \<rparr>,
                                      \<lparr> functionCode = c3, handler = None \<rparr>]) 5 = Inr t0 \<and>
             addHandler t0 c h = Inr (True, t1) \<and>
             functionMapArray t1 ! 4 = \<lparr> functionCode = ucast c, handler = h \<rparr> \<and>
             handler (functionMapArray t1 ! 2) = None \<and>
             validateAddress t1 (ucast c) = Inr False \<and>
             processValue t1 (ucast c) v s = Inr (False, s)"
    using t0 by (intro exI [of _ t0] exI [of _ ?t1]) simp
qed

text \<open>
  The table of capacity \<open>5\<close> with the example entries \<open>1\<close> and \<open>2\<close>: the code \<open>9\<close> is added
  and not found, and neither is the code \<open>3\<close>, which no slot holds.
\<close>

theorem lookup_stops_at_first_null_witness:
  "FunctionMapper (Some example_map) 5 = Inr five_table \<and>
   addHandler five_table 9 (Some (logging True)) = Inr (True, five_table_added) \<and>
   functionMapArray five_table_added ! 4 = \<lparr> functionCode = 9, handler = Some (logging True) \<rparr> \<and>
   validateAddress five_table_added 9 = Inr False \<and>
   processValue five_table_added 9 7 [] = Inr (False, []) \<and>
   validateAddress five_table_added 3 = Inr False \<and>
   processValue five_table_added 3 7 [] = Inr (False, [])"
proof -
  have ctor: "FunctionMapper (Some example_map) 5 = Inr five_table"
    unfolding example_map_def five_table_def by (rule construct_two_of_five)
  from lookup_stops_at_first_null [where c = 9 and ?c1.0 = 1 and ?c2.0 = 2 and ?c3.0 = 0
      and ?h1.0 = "logging True" and ?h2.0 = "logging False" and h = "Some (logging True)"
      and v = 7 and s = "[]", THEN conjunct2, rule_format]
  obtain t0 t1 where t: "FunctionMapper (Some example_map) 5 = Inr t0"
    "addHandler t0 9 (Some (logging True)) = Inr (True, t1)"
    "functionMapArray t1 ! 4 = \<lparr> functionCode = 9, handler = Some (logging True) \<rparr>"
    "validateAddress t1 9 = Inr False" "processValue t1 9 7 [] = Inr (False, [])"
    unfolding example_map_def by auto
  from t(1) ctor have t0: "t0 = five_table" by simp
  have "addHandler five_table 9 (Some (logging True)) = Inr (True, five_table_added)"
    using addHandler_at_last_null [of five_table 4 9 "Some (logging True)"]
    by (simp add: five_table_def five_table_added_def)
  with t(2) t0 have t1: "t1 = five_table_added"
    by simp
  have "2 < length (functionMapArray five_table_added) \<and>
      no_match_before (functionMapArray five_table_added) 3 2 \<and>
      handler (functionMapArray five_table_added ! 2) = None"
    by (simp add: five_table_added_def five_table_def no_match_before_def is_null_def)
  from lookup_stops_at_first_null [where t = five_table_added and j = 2 and code = 3
      and v = 7 and s = "[]", THEN conjunct1, rule_format, OF this]
  have "validateAddress five_table_added 3 = Inr False \<and>
      processValue five_table_added 3 7 [] = Inr (False, [])" .
  with t t0 t1 show ?thesis by simp
qed

section \<open>The terminator slot\<close>

text \<open>An index of \<open>2 ^ 31\<close> or more is negative as an \<^verbatim>\<open>int\<close>.\<close>

lemma to_int_negative: "2 ^ 31 \<le> i \<Longrightarrow> i < 2 ^ 32 \<Longrightarrow> to_int i < 0"
proof -
  assume a: "2 ^ 31 \<le> i" "i < 2 ^ 32"
  have "(2 :: int) ^ 31 \<le> int i"
    using a(1) by (metis of_nat_le_iff of_nat_numeral of_nat_power)
  then have "signed_take_bit 31 (int i) \<le> int i - 2 ^ Suc 31"
    by (rule signed_take_bit_int_less_eq)
  moreover have "(2 :: int) ^ Suc 31 = 2 ^ 32"
    by simp
  ultimately have "to_int i \<le> int i - 2 ^ 32"
    unfolding to_int_eq by (simp only:)
  moreover have "int i < 2 ^ 32"
    using a(2) by (metis of_nat_less_iff of_nat_numeral of_nat_power)
  ultimately show ?thesis by linarith
qed

lemma to_int_nonneg: "i < 2 ^ 32 \<Longrightarrow> 0 \<le> to_int i \<Longrightarrow> to_int i = int i"
  using to_int_negative [of i] to_int_small [of i] by (cases "i < 2 ^ 31") auto

text \<open>
  What the scan of \<^verbatim>\<open>addHandler\<close> returns is its start value or the index of an empty
  real slot, so a call that returns \<^verbatim>\<open>true\<close> has written one empty real slot and a call
  that returns \<^verbatim>\<open>false\<close> has written nothing.
\<close>

lemma addHandler_loop_result:
  assumes "addHandler_loop arr n i slot = Inr x"
  shows "x = slot \<or> (\<exists>j. i \<le> j \<and> j < n \<and> handler (arr ! j) = None \<and> x = to_int j)"
  using assms
proof (induction "n - i" arbitrary: i slot)
  case 0
  then show ?case by (subst (asm) addHandler_loop.simps) simp
next
  case (Suc d)
  then have lt: "i < n" by simp
  define slot' where "slot' = (if is_null (handler (arr ! i)) then to_int i else slot)"
  have inb: "i < length arr"
    using Suc.prems lt by (subst (asm) addHandler_loop.simps) (simp split: if_splits)
  have "addHandler_loop arr n i slot = addHandler_loop arr n (Suc i) slot'"
    using lt inb unfolding slot'_def by (subst addHandler_loop.simps) simp
  with Suc.prems have "addHandler_loop arr n (Suc i) slot' = Inr x" by simp
  moreover have "d = n - Suc i" using Suc.hyps(2) by simp
  ultimately have "x = slot' \<or> (\<exists>j. Suc i \<le> j \<and> j < n \<and> handler (arr ! j) = None \<and> x = to_int j)"
    by (rule Suc.hyps(1) [rotated])
  then show ?case
    using lt unfolding slot'_def by (auto simp: is_null_iff split: if_splits intro: Suc_leD)
qed

lemma addHandler_True:
  assumes "addHandler t code h = Inr (True, t')"
  shows "\<exists>j. j < unat (arraySize t) \<and> j < length (functionMapArray t) \<and>
           handler (functionMapArray t ! j) = None \<and>
           t' = t\<lparr> functionMapArray :=
                     (functionMapArray t)[j := \<lparr> functionCode = ucast code, handler = h \<rparr>] \<rparr>"
proof -
  obtain x where x: "addHandler_loop (functionMapArray t) (unat (arraySize t)) 0 (- 1) = Inr x"
    using assms by (auto simp: addHandler_def split: sum.splits)
  with assms have w: "x \<noteq> - 1" "0 \<le> x" "nat x < length (functionMapArray t)"
    "t' = t\<lparr> functionMapArray :=
               (functionMapArray t)[nat x := \<lparr> functionCode = ucast code, handler = h \<rparr>] \<rparr>"
    by (auto simp: addHandler_def split: if_splits)
  from addHandler_loop_result [OF x] w(1)
  obtain j where j: "j < unat (arraySize t)" "handler (functionMapArray t ! j) = None" "x = to_int j"
    by auto
  have "unat (arraySize t) < 2 ^ 32"
    using unsigned_less [of "arraySize t"] by simp
  with j(1) have "j < 2 ^ 32" by simp
  with w(2) j(3) have "x = int j" by (simp add: to_int_nonneg)
  then have "nat x = j" by simp
  with w j show ?thesis by (intro exI [of _ j]) simp
qed

lemma addHandler_False:
  assumes "addHandler t code h = Inr (False, t')"
  shows "t' = t"
  using assms by (auto simp: addHandler_def split: sum.splits if_splits)

text \<open>
  Unless \<^verbatim>\<open>arraySize + 1\<close> wraps, the constructor leaves the code \<open>0\<close> and the null
  handler in the slot at index \<^verbatim>\<open>arraySize\<close>, and \<^verbatim>\<open>addHandler\<close> keeps them there.
  \<^verbatim>\<open>validateAddress\<close> and \<^verbatim>\<open>processValue\<close> write no slot: they return no table.
\<close>

lemma allocate_terminated:
  assumes "k \<le> c" "c \<noteq> - 1"
  shows "terminated (allocate src k c)"
proof -
  have len: "unat (c + 1) = Suc (unat c)"
    using assms(2) by (rule unat_plus_one)
  have "unat k \<le> unat c"
    using assms(1) by (simp add: word_le_nat_alt)
  then have "init_slot src k (unat c) = \<lparr> functionCode = 0, handler = None \<rparr>"
    by (simp add: init_slot_def)
  then show ?thesis
    using len by (simp add: terminated_def nth_allocate is_null_iff)
qed

lemma FunctionMapper_terminated:
  assumes "FunctionMapper fma c = Inr t" "arraySize t \<noteq> - 1"
  shows "terminated t"
proof (cases fma)
  case None
  then have "t = allocate [] 0 (if c = 0 then 10 else c)"
    using assms(1) by (simp add: FunctionMapper_def)
  then show ?thesis
    using assms(2) by (auto intro: allocate_terminated)
next
  case (Some src)
  then obtain n where "t = allocate src (of_nat n) (if c < of_nat n then of_nat n else c)"
    using assms(1) by (auto simp: FunctionMapper_def Let_def split: sum.splits)
  then show ?thesis
    using assms(2) by (auto intro!: allocate_terminated)
qed

lemma addHandler_terminated:
  assumes "terminated t" "addHandler t code h = Inr (b, t')"
  shows "terminated t' \<and> arraySize t' = arraySize t"
proof (cases b)
  case True
  then obtain j where "j < unat (arraySize t)"
    "t' = t\<lparr> functionMapArray :=
              (functionMapArray t)[j := \<lparr> functionCode = ucast code, handler = h \<rparr>] \<rparr>"
    using assms(2) addHandler_True [of t code h t'] by auto
  then show ?thesis
    using assms(1) by (simp add: terminated_def)
next
  case False
  then show ?thesis
    using assms addHandler_False [of t code h t'] by simp
qed

text \<open>
  Claim C8. The slot at index \<^verbatim>\<open>arraySize\<close> holds the code \<open>0\<close> and the null handler
  after construction and for the rest of the table's life. The constructor breaks this
  for one capacity: with no initial array and the capacity \<open>4294967295\<close>, the largest
  \<^verbatim>\<open>unsigned int\<close>, the slot count \<^verbatim>\<open>arraySize + 1\<close> is \<open>0\<close>. The table has the capacity
  \<open>4294967295\<close> and an array of no slot at all: there is no terminator slot, and
  \<^verbatim>\<open>validateAddress\<close>, \<^verbatim>\<open>processValue\<close> and \<^verbatim>\<open>addHandler\<close> each read past the array at
  index \<open>0\<close>. For every other capacity the lemmas above give the invariant.
\<close>

theorem terminator_missing_at_largest_capacity:
  "\<exists>t :: 's FunctionMapper.
      FunctionMapper None 4294967295 = Inr t \<and>
      unat (arraySize t) = 4294967295 \<and>
      functionMapArray t = [] \<and>
      (\<forall>code. validateAddress t code = Inl OutOfBounds) \<and>
      (\<forall>code v s. processValue t code v s = Inl OutOfBounds) \<and>
      (\<forall>code h. addHandler t code h = Inl OutOfBounds)"
proof -
  let ?t = "\<lparr> arraySize = 4294967295, functionMapArray = [] \<rparr> :: 's FunctionMapper"
  have "FunctionMapper None 4294967295 = Inr ?t"
    by (simp add: FunctionMapper_def allocate_def)
  moreover have "validateAddress ?t code = Inl OutOfBounds" for code
    by (simp add: validateAddress_def validateAddress_loop.simps)
  moreover have "processValue ?t code v s = Inl OutOfBounds" for code v s
    by (simp add: processValue_def processValue_loop.simps)
  moreover have "addHandler ?t code h = Inl OutOfBounds" for code h
    by (simp add: addHandler_def addHandler_loop.simps)
  ultimately show ?thesis by simp
qed

section \<open>A full table and an unknown code\<close>

text \<open>Filling an empty real slot leaves one empty real slot less.\<close>

lemma filter_update_count:
  assumes "j < length xs" "P (xs ! j)" "\<not> P y"
  shows "Suc (length (filter P (xs[j := y]))) = length (filter P xs)"
  using assms
proof (induction xs arbitrary: j)
  case Nil
  then show ?case by simp
next
  case (Cons x xs)
  then show ?case by (cases j) auto
qed

lemma addHandler_empties:
  assumes "terminated t" "addHandler t code (Some h) = Inr (True, t')"
  shows "Suc (empties t') = empties t"
proof -
  obtain j where j: "j < unat (arraySize t)" "handler (functionMapArray t ! j) = None"
    "t' = t\<lparr> functionMapArray :=
              (functionMapArray t)[j := \<lparr> functionCode = ucast code, handler = Some h \<rparr>] \<rparr>"
    using assms(2) addHandler_True [of t code "Some h" t'] by auto
  let ?n = "unat (arraySize t)"
  let ?P = "\<lambda>e :: 's FunctionMap. is_null (handler e)"
  have len: "j < length (take ?n (functionMapArray t))"
    using j(1) assms(1) by (simp add: terminated_def)
  have "take ?n ((functionMapArray t)[j := \<lparr> functionCode = ucast code, handler = Some h \<rparr>]) =
        (take ?n (functionMapArray t))[j := \<lparr> functionCode = ucast code, handler = Some h \<rparr>]"
    using j(1) by (simp add: take_update_swap)
  moreover have "Suc (length (filter ?P ((take ?n (functionMapArray t))
            [j := \<lparr> functionCode = ucast code, handler = Some h \<rparr>]))) =
        length (filter ?P (take ?n (functionMapArray t)))"
    using len j(1,2) by (intro filter_update_count) (simp_all add: is_null_iff)
  ultimately show ?thesis
    using j(3) by (simp add: empties_def)
qed

lemma addHandlers_empties:
  assumes "terminated t" "addHandlers t hs = Some t'"
  shows "terminated t' \<and> arraySize t' = arraySize t \<and> empties t' + length hs = empties t"
  using assms
proof (induction hs arbitrary: t)
  case Nil
  then show ?case by simp
next
  case (Cons p hs)
  obtain code h where p: "p = (code, h)" by (cases p)
  from Cons.prems(2) obtain t1 where t1: "addHandler t code (Some h) = Inr (True, t1)"
    "addHandlers t1 hs = Some t'"
    unfolding p by (auto split: sum.splits bool.splits prod.splits)
  have inv: "terminated t1 \<and> arraySize t1 = arraySize t"
    using Cons.prems(1) t1(1) by (rule addHandler_terminated)
  have cnt: "Suc (empties t1) = empties t"
    using Cons.prems(1) t1(1) by (rule addHandler_empties)
  have "terminated t' \<and> arraySize t' = arraySize t1 \<and> empties t' + length hs = empties t1"
    using inv t1(2) by (intro Cons.IH) auto
  then show ?case using inv cnt by simp
qed

text \<open>
  A call of \<^verbatim>\<open>addHandler\<close> that returns at all has read its real slots inside the array,
  so calls that succeed on a table of a capacity above \<open>0\<close> show that \<^verbatim>\<open>arraySize + 1\<close>
  has not wrapped.
\<close>

lemma FunctionMapper_length:
  assumes "FunctionMapper fma c = Inr t"
  shows "length (functionMapArray t) = unat (arraySize t + 1)"
  using assms by (auto simp: FunctionMapper_def Let_def split: option.splits sum.splits)

lemma addHandler_in_bounds:
  assumes "addHandler t code h = Inr r" "0 < unat (arraySize t)"
  shows "unat (arraySize t) \<le> length (functionMapArray t)"
proof -
  obtain x where "addHandler_loop (functionMapArray t) (unat (arraySize t)) 0 (- 1) = Inr x"
    using assms(1) by (auto simp: addHandler_def split: sum.splits)
  then show ?thesis using assms(2) by (rule addHandler_loop_in_bounds)
qed

lemma addHandlers_capacity_no_wrap:
  assumes "FunctionMapper fma c = Inr t0" "length hs = unat (arraySize t0)"
    and "addHandlers t0 hs = Some t"
  shows "arraySize t0 \<noteq> - 1"
proof
  assume max: "arraySize t0 = - 1"
  then have n: "unat (arraySize t0) = 2 ^ 32 - 1"
    by (simp add: unsigned_minus_1_eq_mask mask_eq_exp_minus_1)
  have len0: "length (functionMapArray t0) = 0"
    using FunctionMapper_length [OF assms(1)] max by simp
  from n assms(2) obtain p rest where hs: "hs = p # rest"
    by (cases hs) auto
  obtain code h where p: "p = (code, h)" by (cases p)
  from assms(3) obtain r where "addHandler t0 code (Some h) = Inr r"
    unfolding hs p by (auto split: sum.splits)
  then have "unat (arraySize t0) \<le> length (functionMapArray t0)"
    using n by (intro addHandler_in_bounds) auto
  with n len0 show False by simp
qed

text \<open>
  Claim C6. Take a table as the constructor returns it, of capacity \<open>c\<close> = \<^verbatim>\<open>arraySize\<close>, and
  \<open>c\<close> calls of \<^verbatim>\<open>addHandler\<close> with callable handlers that all return \<^verbatim>\<open>true\<close> (on an
  empty table they fill the \<open>c\<close> real slots). Then all \<open>c\<close> real slots are occupied, the
  array has exactly \<open>c + 1\<close> slots and slot \<open>c\<close> has the null handler; and for a code that
  no real slot holds, \<^verbatim>\<open>validateAddress\<close> and \<^verbatim>\<open>processValue\<close> return \<^verbatim>\<open>false\<close>. They
  return a value and not \<open>Inl OutOfBounds\<close>: the scan has read no index above \<open>c\<close>, the
  last index of the array, and no handler has run.
\<close>

theorem full_table_unknown_code:
  fixes t0 t :: "'s FunctionMapper"
  assumes "FunctionMapper fma c = Inr t0"
    and "length hs = unat (arraySize t0)"
    and "addHandlers t0 hs = Some t"
    and "list_all (\<lambda>e. functionCode e \<noteq> code) (take (unat (arraySize t)) (functionMapArray t))"
  shows "validateAddress t code = Inr False \<and>
         processValue t code v s = Inr (False, s) \<and>
         arraySize t = arraySize t0 \<and>
         length (functionMapArray t) = Suc (unat (arraySize t)) \<and>
         occupied (functionMapArray t) (unat (arraySize t)) \<and>
         handler (functionMapArray t ! unat (arraySize t)) = None"
proof -
  let ?n = "unat (arraySize t)"
  let ?arr = "functionMapArray t"
  have "arraySize t0 \<noteq> - 1"
    using assms(1-3) by (rule addHandlers_capacity_no_wrap)
  with assms(1) have t0: "terminated t0"
    by (rule FunctionMapper_terminated)
  from t0 assms(3) have inv: "terminated t" "arraySize t = arraySize t0"
    "empties t + length hs = empties t0"
    using addHandlers_empties [of t0 hs t] by auto
  have "empties t0 \<le> unat (arraySize t0)"
    unfolding empties_def by (rule order_trans [OF length_filter_le]) simp
  with inv(3) assms(2) have "empties t = 0" by simp
  then have live: "list_all (\<lambda>e. \<not> is_null (handler e)) (take ?n ?arr)"
    by (simp add: empties_def filter_empty_conv list_all_iff)
  have len: "length ?arr = Suc ?n" and nul: "handler (?arr ! ?n) = None"
    using inv(1) by (simp_all add: terminated_def is_null_iff)
  have occ: "occupied ?arr ?n"
    using live len by (simp add: occupied_def)
  have nm: "no_match_before ?arr code ?n"
    using live assms(4) by (simp add: no_match_before_def list_all_iff)
  have "validateAddress t code = Inr False"
    unfolding validateAddress_def using len nm nul
    by (intro validateAddress_loop_sentinel [of ?n]) auto
  moreover have "processValue t code v s = Inr (False, s)"
    unfolding processValue_def using len nm nul
    by (intro processValue_loop_sentinel [of ?n]) auto
  ultimately show ?thesis using inv(2) len occ nul by simp
qed

text \<open>The empty table of capacity \<open>2\<close>, filled by two calls, and the unknown code \<open>3\<close>.\<close>

theorem full_table_unknown_code_witness:
  "FunctionMapper None 2 = Inr blank_table \<and>
   addHandlers blank_table [(1, logging True), (2, logging False)] = Some filled_table \<and>
   validateAddress filled_table 3 = Inr False \<and>
   processValue filled_table 3 7 [] = Inr (False, []) \<and>
   length (functionMapArray filled_table) = 3"
proof -
  have ctor: "FunctionMapper None 2 = Inr blank_table"
    by (simp add: FunctionMapper_def allocate_def init_slot_def upt_rec blank_table_def)
  have adds: "addHandlers blank_table [(1, logging True), (2, logging False)] = Some filled_table"
    by (simp add: addHandler_def addHandler_loop.simps to_int_def is_null_def filled_table_def
        blank_table_def)
  have unknown: "list_all (\<lambda>e. functionCode e \<noteq> 3)
      (take (unat (arraySize filled_table)) (functionMapArray filled_table))"
    by (simp add: filled_table_def)
  show ?thesis
    using full_table_unknown_code [OF ctor _ adds unknown, of 7 "[]"] ctor adds
    by (simp add: filled_table_def blank_table_def)
qed

end
